theory Spec2Isabelle
  imports Complex_Main
begin

section \<open>Data model of \<open>src/fastapi/app.py\<close>\<close>

text \<open>
  The service keeps three stores: MinIO (objects by key), the PostgreSQL table
  \<open>sim_images\<close> (rows by \<open>image_id\<close>) and the RediSearch index \<open>image_vectors\<close>
  (documents by document id \<open>img:<image_id>\<close>). Each store is a finite map; the Celery
  queue is the list of the enqueued calls of \<open>compute_and_index\<close>.
\<close>

type_synonym bytes = "nat list"

text \<open>
  Python exceptions as values. \<open>HTTPException\<close> carries its status code and its detail;
  the handlers of the source build a detail with \<open>str(e)\<close>, which is kept symbolic
  as \<open>StrOf e\<close>.
\<close>

datatype exn =
    MinioError
  | ModelError
  | RedisError
  | PgError
  | CeleryError
  | AttributeError string
  | ValueError
  | HTTPException nat detail
and detail =
    Msg string
  | StrOf exn

text \<open>
  A component of a numpy \<open>float32\<close> array: a finite value, carried as a real, or one of
  the special values. The infinities and \<open>nan\<close> are explicit because numpy produces them
  without raising, on overflow and on a division by zero.
\<close>

datatype npfloat = Fin real | PInf | NInf | NaN

text \<open>A row of \<open>sim_images\<close> (the \<open>uploaded_at\<close> timestamp is not modelled).\<close>

record image_row =
  row_title :: string
  row_tags :: "string list option"
  row_url :: string
  row_status :: string

text \<open>A document of the index \<open>image_vectors\<close>, as \<open>add_document\<close> is given it.\<close>

record index_doc =
  doc_image_id :: string
  doc_title :: string
  doc_tags :: string
  doc_url :: string
  doc_embedding :: "npfloat list"

text \<open>The arguments of one call of the task \<open>compute_and_index\<close>.\<close>

record job =
  job_image_id :: string
  job_object_key :: string
  job_title :: string
  job_tags :: "string list option"

record sys =
  minio :: "string \<rightharpoonup> bytes"
  sim_images :: "string \<rightharpoonup> image_row"
  image_vectors :: "string \<rightharpoonup> index_doc"
  celery :: "job list"

text \<open>
  What the code calls and does not define: the outcome of every call into a library or
  a service is a field of the environment of one run. A flag says that the call raises.
  The embedder of a run is a function of the content; the task hands it the name of a
  fresh temporary file that holds the content, so two deliveries of one job run in two
  environments, whose embedders need not agree.
\<close>

record world =
  minio_fails :: bool
  load_model :: "exn option"
  embed_image :: "bytes \<Rightarrow> exn + real list"
  embed_text :: "string \<Rightarrow> exn + real list"
  redis_add_fails :: bool
  pg_fails :: bool
  celery_fails :: bool
  uuid4 :: string
  splitext_ext :: "string \<Rightarrow> string"
  str_strip :: "string \<Rightarrow> string"
  str_split_ws :: "string \<Rightarrow> string list"
  float_of_str :: "string \<Rightarrow> exn + real"
  ft_search :: "int \<Rightarrow> npfloat list \<Rightarrow> exn + (string \<rightharpoonup> string) list"

section \<open>Normalisation in \<open>float32\<close>\<close>

text \<open>
  The arrays are \<open>float32\<close>. Of the rounding to \<open>float32\<close> the range is modelled: a
  result whose magnitude reaches \<open>2^128 - 2^103\<close> (half a unit above the largest finite
  value) becomes an infinity, a result of magnitude at most \<open>2^-150\<close> (half the smallest
  subnormal) becomes zero, and a result in between is kept exact. The sign of a zero is
  not kept.
\<close>

definition f32_overflow :: real where
  "f32_overflow = 2 ^ 128 - 2 ^ 103"

definition f32_underflow :: real where
  "f32_underflow = 1 / 2 ^ 150"

definition f32 :: "real \<Rightarrow> npfloat" where
  "f32 r =
     (if f32_overflow \<le> \<bar>r\<bar> then (if 0 < r then PInf else NInf)
      else if \<bar>r\<bar> \<le> f32_underflow then Fin 0
      else Fin r)"

text \<open>\<open>x.conj() * x\<close> on one component of a real array: its square.\<close>

fun f32_sq :: "npfloat \<Rightarrow> npfloat" where
  "f32_sq (Fin a) = f32 (a * a)"
| "f32_sq PInf = PInf"
| "f32_sq NInf = PInf"
| "f32_sq NaN = NaN"

fun f32_add :: "npfloat \<Rightarrow> npfloat \<Rightarrow> npfloat" where
  "f32_add (Fin a) (Fin b) = f32 (a + b)"
| "f32_add NaN y = NaN"
| "f32_add x NaN = NaN"
| "f32_add PInf NInf = NaN"
| "f32_add NInf PInf = NaN"
| "f32_add PInf y = PInf"
| "f32_add x PInf = PInf"
| "f32_add NInf y = NInf"
| "f32_add x NInf = NInf"

fun f32_sqrt :: "npfloat \<Rightarrow> npfloat" where
  "f32_sqrt (Fin a) = (if a < 0 then NaN else Fin (sqrt a))"
| "f32_sqrt PInf = PInf"
| "f32_sqrt NInf = NaN"
| "f32_sqrt NaN = NaN"

text \<open>numpy's element-wise division: a zero divisor gives \<open>nan\<close> or an infinity, no exception.\<close>

fun np_div :: "npfloat \<Rightarrow> npfloat \<Rightarrow> npfloat" where
  "np_div (Fin a) (Fin b) =
     (if b \<noteq> 0 then f32 (a / b)
      else if a = 0 then NaN
      else if 0 < a then PInf else NInf)"
| "np_div NaN y = NaN"
| "np_div x NaN = NaN"
| "np_div (Fin a) PInf = Fin 0"
| "np_div (Fin a) NInf = Fin 0"
| "np_div PInf (Fin b) = (if 0 \<le> b then PInf else NInf)"
| "np_div NInf (Fin b) = (if 0 \<le> b then NInf else PInf)"
| "np_div PInf y = NaN"
| "np_div NInf y = NaN"

text \<open>
  \<open>np.linalg.norm(x, axis=1, keepdims=True)\<close> on the single row of \<open>x\<close>:
  \<open>sqrt(add.reduce((x.conj() * x).real))\<close>, every step in \<open>float32\<close>. The squares are not
  negative, so the order in which \<open>add.reduce\<close> adds them does not change the result here.
\<close>

definition l2_norm :: "npfloat list \<Rightarrow> npfloat" where
  "l2_norm x = f32_sqrt (foldr f32_add (map f32_sq x) (Fin 0))"

text \<open>
  \<open>x = emb.astype("float32")\<close>, \<open>x = x / np.linalg.norm(x, axis=1, keepdims=True)\<close>, then
  \<open>x[0].tolist()\<close>.
\<close>

definition normalize :: "real list \<Rightarrow> npfloat list" where
  "normalize xs = (let x = map f32 xs in map (\<lambda>v. np_div v (l2_norm x)) x)"




section \<open>The indexing task\<close>

definition fget_object :: "world \<Rightarrow> sys \<Rightarrow> string \<Rightarrow> exn + bytes" where
  "fget_object w s object_key =
     (if minio_fails w then Inl MinioError
      else case minio s object_key of None \<Rightarrow> Inl MinioError | Some b \<Rightarrow> Inr b)"

definition py_or :: "string \<Rightarrow> string \<Rightarrow> string" where
  "py_or a b = (if a = [] then b else a)"

fun join_sp :: "string list \<Rightarrow> string" where
  "join_sp [] = []"
| "join_sp [t] = t"
| "join_sp (t # ts) = t @ '' '' @ join_sp ts"

text \<open>
  \<open>r.ft("image_vectors").add_document(f"img:{image_id}", ...)\<close>. Whether the client
  accepts the call (the embedding is passed as a list) is the client's matter: the flag
  of the environment decides, and a call that raises writes nothing.
\<close>

definition add_document :: "world \<Rightarrow> sys \<Rightarrow> string \<Rightarrow> index_doc \<Rightarrow> exn + sys" where
  "add_document w s doc_id d =
     (if redis_add_fails w then Inl RedisError
      else Inr (s\<lparr>image_vectors := (image_vectors s)(doc_id \<mapsto> d)\<rparr>))"

text \<open>\<open>UPDATE sim_images SET status='indexed' WHERE image_id=%s\<close>, then the commit.\<close>

definition mark_indexed :: "world \<Rightarrow> sys \<Rightarrow> string \<Rightarrow> exn + sys" where
  "mark_indexed w s image_id =
     (if pg_fails w then Inl PgError
      else Inr (case sim_images s image_id of
                  None \<Rightarrow> s
                | Some row \<Rightarrow>
                    s\<lparr>sim_images := (sim_images s)(image_id \<mapsto> row\<lparr>row_status := ''indexed''\<rparr>)\<rparr>))"

text \<open>The keyword arguments of \<open>add_document\<close>: the fields of the stored document.\<close>

definition doc_of_job :: "job \<Rightarrow> real list \<Rightarrow> index_doc" where
  "doc_of_job j emb =
     \<lparr>doc_image_id = job_image_id j,
      doc_title = py_or (job_title j) '''',
      doc_tags = join_sp (case job_tags j of None \<Rightarrow> [] | Some ts \<Rightarrow> ts),
      doc_url = job_object_key j,
      doc_embedding = normalize emb\<rparr>"

text \<open>
  \<open>compute_and_index\<close>, with the states the stores go through: the second component
  lists the state after each write, in the order of the writes.
\<close>

definition compute_and_index_steps :: "world \<Rightarrow> job \<Rightarrow> sys \<Rightarrow> (exn + bool) \<times> sys list" where
  "compute_and_index_steps w j s =
     (case fget_object w s (job_object_key j) of
        Inl e \<Rightarrow> (Inl e, [])
      | Inr data \<Rightarrow>
         (case load_model w of
            Some e \<Rightarrow> (Inl e, [])
          | None \<Rightarrow>
             (case embed_image w data of
                Inl e \<Rightarrow> (Inl e, [])
              | Inr emb \<Rightarrow>
                 (case add_document w s (''img:'' @ job_image_id j) (doc_of_job j emb) of
                    Inl e \<Rightarrow> (Inl e, [])
                  | Inr s1 \<Rightarrow>
                     (case mark_indexed w s1 (job_image_id j) of
                        Inl e \<Rightarrow> (Inl e, [s1])
                      | Inr s2 \<Rightarrow> (Inr True, [s1, s2]))))))"

definition compute_and_index :: "world \<Rightarrow> job \<Rightarrow> sys \<Rightarrow> (exn + bool) \<times> sys" where
  "compute_and_index w j s =
     (case compute_and_index_steps w j s of (r, ss) \<Rightarrow> (r, last (s # ss)))"

text \<open>The same job delivered \<open>n\<close> times, each delivery in the same environment.\<close>

fun redeliver :: "nat \<Rightarrow> world \<Rightarrow> job \<Rightarrow> sys \<Rightarrow> sys" where
  "redeliver 0 w j s = s"
| "redeliver (Suc n) w j s = redeliver n w j (snd (compute_and_index w j s))"

section \<open>Upload\<close>

text \<open>\<open>str.split(",")\<close>: the pieces between the commas, empty pieces kept.\<close>

fun split_comma :: "string \<Rightarrow> string list" where
  "split_comma [] = [[]]"
| "split_comma (c # cs) =
     (if c = CHR '','' then [] # split_comma cs
      else (case split_comma cs of
              [] \<Rightarrow> [[c]]
            | p # ps \<Rightarrow> (c # p) # ps))"

text \<open>\<open>[t.strip() for t in (tags or "").split(",") if t.strip()]\<close>\<close>

definition tag_list_of :: "world \<Rightarrow> string \<Rightarrow> string list" where
  "tag_list_of w tags =
     map (str_strip w) (filter (\<lambda>t. str_strip w t \<noteq> []) (split_comma (py_or tags '''')))"

record upload_reply =
  reply_image_id :: string
  reply_status :: string

text \<open>
  \<open>INSERT INTO sim_images (image_id, title, tags, url, status) VALUES (...)
  ON CONFLICT (image_id) DO NOTHING\<close>
\<close>

definition insert_image :: "sys \<Rightarrow> string \<Rightarrow> image_row \<Rightarrow> sys" where
  "insert_image s image_id row =
     (case sim_images s image_id of
        None \<Rightarrow> s\<lparr>sim_images := (sim_images s)(image_id \<mapsto> row)\<rparr>
      | Some _ \<Rightarrow> s)"

text \<open>
  \<open>upload_image\<close>: every exception of the body is answered with status 500, and the
  writes made before it stay.
\<close>

definition upload_image :: "world \<Rightarrow> string \<Rightarrow> bytes \<Rightarrow> string \<Rightarrow> string \<Rightarrow> sys
    \<Rightarrow> (exn + upload_reply) \<times> sys" where
  "upload_image w filename data title tags s =
     (let image_id = uuid4 w;
          ext = py_or (splitext_ext w filename) ''.jpg'';
          object_key = ''similarity/'' @ image_id @ ext
      in if minio_fails w then (Inl (HTTPException 500 (StrOf MinioError)), s)
         else
           let s1 = s\<lparr>minio := (minio s)(object_key \<mapsto> data)\<rparr>;
               tag_list = tag_list_of w tags
           in if pg_fails w then (Inl (HTTPException 500 (StrOf PgError)), s1)
              else
                let s2 = insert_image s1 image_id
                           \<lparr>row_title = title,
                            row_tags = (if tag_list \<noteq> [] then Some tag_list else None),
                            row_url = object_key,
                            row_status = ''pending''\<rparr>
                in if celery_fails w then (Inl (HTTPException 500 (StrOf CeleryError)), s2)
                   else
                     (Inr \<lparr>reply_image_id = image_id, reply_status = ''queued''\<rparr>,
                      s2\<lparr>celery := celery s2 @
                           [\<lparr>job_image_id = image_id, job_object_key = object_key,
                             job_title = title, job_tags = Some tag_list\<rparr>]\<rparr>))"

section \<open>Vector search\<close>

record item =
  item_image_id :: string
  item_score :: real
  item_title :: string
  item_url :: string
  item_tags :: "string list"

text \<open>
  A document of \<open>search_results.docs\<close> is an object whose attributes are the returned
  fields; \<open>doc.name\<close> raises \<open>AttributeError\<close> when the attribute is absent.
\<close>

definition getattr :: "(string \<rightharpoonup> string) \<Rightarrow> string \<Rightarrow> exn + string" where
  "getattr d name = (case d name of None \<Rightarrow> Inl (AttributeError name) | Some v \<Rightarrow> Inr v)"

text \<open>\<open>float(doc.__dict__.get('__score', 0))\<close>\<close>

definition score_of :: "world \<Rightarrow> (string \<rightharpoonup> string) \<Rightarrow> exn + real" where
  "score_of w d = (case d ''__score'' of None \<Rightarrow> Inr 0 | Some v \<Rightarrow> float_of_str w v)"

text \<open>The dictionary built for one document, its entries evaluated in the order written.\<close>

definition hit_of :: "world \<Rightarrow> (string \<rightharpoonup> string) \<Rightarrow> exn + item" where
  "hit_of w d =
     (case getattr d ''image_id'' of
        Inl e \<Rightarrow> Inl e
      | Inr i \<Rightarrow>
         (case score_of w d of
            Inl e \<Rightarrow> Inl e
          | Inr sc \<Rightarrow>
             (case getattr d ''title'' of
                Inl e \<Rightarrow> Inl e
              | Inr t \<Rightarrow>
                 (case getattr d ''url'' of
                    Inl e \<Rightarrow> Inl e
                  | Inr u \<Rightarrow>
                     (case getattr d ''tags'' of
                        Inl e \<Rightarrow> Inl e
                      | Inr g \<Rightarrow>
                          Inr \<lparr>item_image_id = i, item_score = sc,
                               item_title = py_or t '''', item_url = py_or u '''',
                               item_tags = (if g \<noteq> [] then str_split_ws w g else [])\<rparr>)))))"

text \<open>The loop over \<open>search_results.docs\<close>: the first exception ends it.\<close>

fun hits_of :: "world \<Rightarrow> (string \<rightharpoonup> string) list \<Rightarrow> exn + item list" where
  "hits_of w [] = Inr []"
| "hits_of w (d # ds) =
     (case hit_of w d of
        Inl e \<Rightarrow> Inl e
      | Inr h \<Rightarrow> (case hits_of w ds of Inl e \<Rightarrow> Inl e | Inr hs \<Rightarrow> Inr (h # hs)))"

text \<open>
  The choice of the query: \<open>if query_text: ... elif query_image is not None: ... else:
  raise HTTPException(status_code=400, ...)\<close>. Reading the upload and writing
  \<open>/tmp/query.img\<close> are part of the call of the embedder on the image.
\<close>

definition query_embedding :: "world \<Rightarrow> string option \<Rightarrow> bytes option \<Rightarrow> exn + real list" where
  "query_embedding w query_text query_image =
     (if query_text \<noteq> None \<and> query_text \<noteq> Some []
      then embed_text w (the query_text)
      else case query_image of
             Some data \<Rightarrow> embed_image w data
           | None \<Rightarrow> Inl (HTTPException 400 (Msg ''Provide query_text or query_image'')))"

text \<open>
  \<open>search_vector\<close>: the inner handler answers any exception of the index search and of
  the loop with no results; the outer handler answers any other exception of the body
  with status 500.
\<close>

definition search_vector :: "world \<Rightarrow> string option \<Rightarrow> bytes option \<Rightarrow> int \<Rightarrow> exn + item list" where
  "search_vector w query_text query_image top_k =
     (case load_model w of
        Some e \<Rightarrow> Inl (HTTPException 500 (StrOf e))
      | None \<Rightarrow>
         (case query_embedding w query_text query_image of
            Inl e \<Rightarrow> Inl (HTTPException 500 (StrOf e))
          | Inr q \<Rightarrow>
             (case ft_search w top_k (normalize q) of
                Inl e \<Rightarrow> Inr []
              | Inr docs \<Rightarrow>
                 (case hits_of w docs of
                    Inl e \<Rightarrow> Inr []
                  | Inr results \<Rightarrow> Inr results))))"

section \<open>Reachable states\<close>

text \<open>
  \<open>ensure_tables\<close>, \<open>ensure_bucket\<close> and \<open>ensure_redis_index\<close> create the empty stores.
  From there a state is reached by an upload or by one write of a run of the task; a
  task may run with any arguments and any number of times.
\<close>

definition init_sys :: sys where
  "init_sys = \<lparr>minio = Map.empty, sim_images = Map.empty, image_vectors = Map.empty, celery = []\<rparr>"

inductive reachable :: "sys \<Rightarrow> bool" where
  reach_init: "reachable init_sys"
| reach_upload: "reachable s \<Longrightarrow> reachable (snd (upload_image w filename data title tags s))"
| reach_task: "reachable s \<Longrightarrow> s' \<in> set (snd (compute_and_index_steps w j s)) \<Longrightarrow> reachable s'"

text \<open>A row that says \<open>indexed\<close> has its document in the index.\<close>

definition indexed_has_doc :: "sys \<Rightarrow> bool" where
  "indexed_has_doc s =
     (\<forall>i row. sim_images s i = Some row \<and> row_status row = ''indexed''
        \<longrightarrow> image_vectors s (''img:'' @ i) \<noteq> None)"

text \<open>Every row's status is one of the two strings the code writes.\<close>

definition status_written :: "sys \<Rightarrow> bool" where
  "status_written s =
     (\<forall>i row. sim_images s i = Some row
        \<longrightarrow> row_status row = ''pending'' \<or> row_status row = ''indexed'')"

section \<open>Concrete environments and states\<close>

text \<open>An environment in which every call succeeds, and the upload of one image in it.\<close>

definition doc_hit :: "string \<rightharpoonup> string" where
  "doc_hit = map_of [(''image_id'', ''a''), (''title'', ''t''),
                     (''url'', ''similarity/a.png''), (''tags'', '''')]"

definition world_ok :: world where
  "world_ok =
     \<lparr>minio_fails = False, load_model = None,
      embed_image = (\<lambda>b. Inr [1, 0]), embed_text = (\<lambda>t. Inr [0, 1]),
      redis_add_fails = False, pg_fails = False, celery_fails = False,
      uuid4 = ''a'', splitext_ext = (\<lambda>f. ''.png''),
      str_strip = (\<lambda>t. t), str_split_ws = (\<lambda>t. [t]),
      float_of_str = (\<lambda>v. Inr 1),
      ft_search = (\<lambda>k q. Inr [doc_hit])\<rparr>"

definition job_a :: job where
  "job_a = \<lparr>job_image_id = ''a'', job_object_key = ''similarity/a.png'',
            job_title = ''t'', job_tags = Some []\<rparr>"

definition sys_uploaded :: sys where
  "sys_uploaded = snd (upload_image world_ok ''f.png'' [1] ''t'' '''' init_sys)"

text \<open>The same environment with an embedder that always raises.\<close>

definition world_embed_fails :: world where
  "world_embed_fails =
     world_ok\<lparr>embed_image := (\<lambda>b. Inl ModelError), embed_text := (\<lambda>t. Inl ModelError)\<rparr>"

text \<open>The same environment with an embedder that returns the zero vector.\<close>

definition world_zero :: world where
  "world_zero = world_ok\<lparr>embed_image := (\<lambda>b. Inr [0, 0])\<rparr>"

text \<open>The same environment with an index search that raises.\<close>

definition world_search_fails :: world where
  "world_search_fails = world_ok\<lparr>ft_search := (\<lambda>k q. Inl RedisError)\<rparr>"

text \<open>The same environment with an index write that raises.\<close>

definition world_add_fails :: world where
  "world_add_fails = world_ok\<lparr>redis_add_fails := True\<rparr>"

text \<open>The zero vector from the embedder, and an index write that raises.\<close>

definition world_zero_add_fails :: world where
  "world_zero_add_fails = world_zero\<lparr>redis_add_fails := True\<rparr>"



section \<open>The stores after each write\<close>

lemma sys_uploaded_eq:
  "sys_uploaded = \<lparr>minio = [''similarity/a.png'' \<mapsto> [1]],
     sim_images = [''a'' \<mapsto> \<lparr>row_title = ''t'', row_tags = None, row_url = ''similarity/a.png'', row_status = ''pending''\<rparr>],
     image_vectors = Map.empty,
     celery = [job_a]\<rparr>"
  by (simp add: sys_uploaded_def upload_image_def world_ok_def init_sys_def insert_image_def
      tag_list_of_def py_or_def job_a_def Let_def)

lemma steps_mem:
  assumes "s' \<in> set (snd (compute_and_index_steps w j s))"
  shows "\<exists>emb. s' = s\<lparr>image_vectors := (image_vectors s)(''img:'' @ job_image_id j \<mapsto> doc_of_job j emb)\<rparr>
           \<or> mark_indexed w (s\<lparr>image_vectors := (image_vectors s)(''img:'' @ job_image_id j \<mapsto> doc_of_job j emb)\<rparr>)
                 (job_image_id j) = Inr s'"
  using assms
  by (auto simp: compute_and_index_steps_def add_document_def
      split: sum.splits option.splits if_splits)

lemma indexed_has_doc_add:
  "indexed_has_doc s \<Longrightarrow> indexed_has_doc (s\<lparr>image_vectors := (image_vectors s)(k \<mapsto> d)\<rparr>)"
  by (simp add: indexed_has_doc_def)

lemma indexed_has_doc_mark:
  "indexed_has_doc s \<Longrightarrow> image_vectors s (''img:'' @ i) \<noteq> None \<Longrightarrow>
   mark_indexed w s i = Inr s' \<Longrightarrow> indexed_has_doc s'"
  by (auto simp: indexed_has_doc_def mark_indexed_def split: if_splits option.splits)

lemma mark_indexed_vectors:
  "mark_indexed w s i = Inr s' \<Longrightarrow> image_vectors s' = image_vectors s"
  by (auto simp: mark_indexed_def split: if_splits option.splits)

lemma indexed_has_doc_upload:
  "indexed_has_doc s \<Longrightarrow> indexed_has_doc (snd (upload_image w filename data title tags s))"
  by (auto simp: upload_image_def Let_def indexed_has_doc_def insert_image_def split: option.splits)

lemma indexed_has_doc_steps:
  assumes "indexed_has_doc s" and "s' \<in> set (snd (compute_and_index_steps w j s))"
  shows "indexed_has_doc s' \<and> image_vectors s' (''img:'' @ job_image_id j) \<noteq> None"
proof -
  from steps_mem [OF assms(2)] obtain emb where
    alt: "s' = s\<lparr>image_vectors := (image_vectors s)(''img:'' @ job_image_id j \<mapsto> doc_of_job j emb)\<rparr>
           \<or> mark_indexed w (s\<lparr>image_vectors := (image_vectors s)(''img:'' @ job_image_id j \<mapsto> doc_of_job j emb)\<rparr>)
                 (job_image_id j) = Inr s'"
    by blast
  define s1 where "s1 = s\<lparr>image_vectors := (image_vectors s)(''img:'' @ job_image_id j \<mapsto> doc_of_job j emb)\<rparr>"
  have i1: "indexed_has_doc s1" using assms(1) by (simp add: s1_def indexed_has_doc_add)
  have d1: "image_vectors s1 (''img:'' @ job_image_id j) \<noteq> None" by (simp add: s1_def)
  from alt have "s' = s1 \<or> mark_indexed w s1 (job_image_id j) = Inr s'" by (simp add: s1_def)
  then show ?thesis
  proof
    assume "s' = s1" with i1 d1 show ?thesis by simp
  next
    assume m: "mark_indexed w s1 (job_image_id j) = Inr s'"
    from indexed_has_doc_mark [OF i1 d1 m] mark_indexed_vectors [OF m] d1
    show ?thesis by simp
  qed
qed

lemma indexed_has_doc_init: "indexed_has_doc init_sys"
  by (simp add: indexed_has_doc_def init_sys_def)

lemma reachable_indexed_has_doc: "reachable s \<Longrightarrow> indexed_has_doc s"
proof (induction rule: reachable.induct)
  case reach_init
  show ?case by (rule indexed_has_doc_init)
next
  case (reach_upload s w filename data title tags)
  then show ?case by (simp add: indexed_has_doc_upload)
next
  case (reach_task s s' w j)
  then show ?case using indexed_has_doc_steps by blast
qed

lemma status_written_upload:
  "status_written s \<Longrightarrow> status_written (snd (upload_image w filename data title tags s))"
  by (auto simp: upload_image_def Let_def status_written_def insert_image_def split: option.splits)

lemma status_written_mark:
  assumes "status_written s" and "mark_indexed w s i = Inr s'"
  shows "status_written s'"
proof (cases "sim_images s i")
  case None
  with assms show ?thesis by (simp add: mark_indexed_def split: if_splits)
next
  case (Some row0)
  with assms(2) have s': "s' = s\<lparr>sim_images := (sim_images s)(i \<mapsto> row0\<lparr>row_status := ''indexed''\<rparr>)\<rparr>"
    by (simp add: mark_indexed_def split: if_splits)
  show ?thesis
    unfolding status_written_def
  proof (intro allI impI)
    fix k row assume k: "sim_images s' k = Some row"
    show "row_status row = ''pending'' \<or> row_status row = ''indexed''"
    proof (cases "k = i")
      case True
      with k s' show ?thesis by auto
    next
      case False
      with k s' have "sim_images s k = Some row" by simp
      with assms(1) show ?thesis unfolding status_written_def by blast
    qed
  qed
qed

lemma status_written_steps:
  assumes "status_written s" and "s' \<in> set (snd (compute_and_index_steps w j s))"
  shows "status_written s'"
proof -
  from steps_mem [OF assms(2)] obtain emb where
    alt: "s' = s\<lparr>image_vectors := (image_vectors s)(''img:'' @ job_image_id j \<mapsto> doc_of_job j emb)\<rparr>
           \<or> mark_indexed w (s\<lparr>image_vectors := (image_vectors s)(''img:'' @ job_image_id j \<mapsto> doc_of_job j emb)\<rparr>)
                 (job_image_id j) = Inr s'"
    by blast
  define s1 where "s1 = s\<lparr>image_vectors := (image_vectors s)(''img:'' @ job_image_id j \<mapsto> doc_of_job j emb)\<rparr>"
  have i1: "status_written s1" using assms(1) by (simp add: s1_def status_written_def)
  from alt have "s' = s1 \<or> mark_indexed w s1 (job_image_id j) = Inr s'" by (simp add: s1_def)
  then show ?thesis using i1 status_written_mark by blast
qed

lemma reachable_status_written: "reachable s \<Longrightarrow> status_written s"
proof (induction rule: reachable.induct)
  case reach_init
  show ?case by (simp add: status_written_def init_sys_def)
next
  case (reach_upload s w filename data title tags)
  then show ?case by (simp add: status_written_upload)
next
  case (reach_task s s' w j)
  then show ?case using status_written_steps by blast
qed

lemma run_uploaded:
  "compute_and_index_steps world_ok job_a sys_uploaded =
     (Inr True,
      [sys_uploaded\<lparr>image_vectors := [''img:a'' \<mapsto> doc_of_job job_a [1, 0]]\<rparr>,
       sys_uploaded\<lparr>image_vectors := [''img:a'' \<mapsto> doc_of_job job_a [1, 0]],
          sim_images := [''a'' \<mapsto> \<lparr>row_title = ''t'', row_tags = None,
             row_url = ''similarity/a.png'', row_status = ''indexed''\<rparr>]\<rparr>])"
  by (simp add: compute_and_index_steps_def fget_object_def add_document_def mark_indexed_def
      world_ok_def job_a_def sys_uploaded_eq)

lemma steps_first_rows:
  "snd (compute_and_index_steps w j s) = s1 # ss \<Longrightarrow> sim_images s1 = sim_images s"
  by (auto simp: compute_and_index_steps_def add_document_def
      split: sum.splits option.splits if_splits)

lemma steps_success_last:
  "fst (compute_and_index w j s) = Inr True \<Longrightarrow>
   snd (compute_and_index w j s) \<in> set (snd (compute_and_index_steps w j s))"
  by (auto simp: compute_and_index_def compute_and_index_steps_def
      split: sum.splits option.splits if_splits prod.splits)

section \<open>Claims about the indexing task\<close>

text \<open>
  C1. In every run of the task the document \<open>img:<image_id>\<close> is written to the index
  before the row's status is set to \<open>indexed\<close>: the first write of a run leaves the
  rows as they were, every state a run goes through has the document of its image, and
  in every reachable state, between the writes of a run as well as after a successful
  run, a row whose status is \<open>indexed\<close> has its document in the index.
\<close>

theorem index_entry_before_indexed_status:
  assumes "reachable s"
  shows "indexed_has_doc s
     \<and> (\<forall>s' \<in> set (snd (compute_and_index_steps w j s)).
           indexed_has_doc s' \<and> image_vectors s' (''img:'' @ job_image_id j) \<noteq> None)
     \<and> (\<forall>s1 ss. snd (compute_and_index_steps w j s) = s1 # ss \<longrightarrow> sim_images s1 = sim_images s)
     \<and> (fst (compute_and_index w j s) = Inr True \<longrightarrow>
           indexed_has_doc (snd (compute_and_index w j s))
           \<and> image_vectors (snd (compute_and_index w j s)) (''img:'' @ job_image_id j) \<noteq> None)"
proof -
  have a: "indexed_has_doc s" using assms by (rule reachable_indexed_has_doc)
  have b: "\<forall>s' \<in> set (snd (compute_and_index_steps w j s)).
           indexed_has_doc s' \<and> image_vectors s' (''img:'' @ job_image_id j) \<noteq> None"
    using indexed_has_doc_steps [OF a] by blast
  have c: "\<forall>s1 ss. snd (compute_and_index_steps w j s) = s1 # ss \<longrightarrow> sim_images s1 = sim_images s"
    using steps_first_rows by blast
  have d: "fst (compute_and_index w j s) = Inr True \<longrightarrow>
           indexed_has_doc (snd (compute_and_index w j s))
           \<and> image_vectors (snd (compute_and_index w j s)) (''img:'' @ job_image_id j) \<noteq> None"
    using b steps_success_last by blast
  from a b c d show ?thesis by blast
qed

lemma reachable_uploaded: "reachable sys_uploaded"
  unfolding sys_uploaded_def by (rule reach_upload [OF reach_init])

theorem index_entry_before_indexed_status_witness:
  "reachable sys_uploaded
   \<and> fst (compute_and_index world_ok job_a sys_uploaded) = Inr True
   \<and> map_option row_status (sim_images (snd (compute_and_index world_ok job_a sys_uploaded)) ''a'')
       = Some ''indexed''
   \<and> indexed_has_doc (snd (compute_and_index world_ok job_a sys_uploaded))
   \<and> image_vectors (snd (compute_and_index world_ok job_a sys_uploaded)) ''img:a'' \<noteq> None"
proof -
  have r: "reachable sys_uploaded" by (rule reachable_uploaded)
  have ok: "fst (compute_and_index world_ok job_a sys_uploaded) = Inr True"
    by (simp add: compute_and_index_def run_uploaded)
  have st: "map_option row_status
      (sim_images (snd (compute_and_index world_ok job_a sys_uploaded)) ''a'') = Some ''indexed''"
    by (simp add: compute_and_index_def run_uploaded)
  have id: "job_image_id job_a = ''a''" by (simp add: job_a_def)
  from index_entry_before_indexed_status [OF r, of world_ok job_a] ok id
  have "indexed_has_doc (snd (compute_and_index world_ok job_a sys_uploaded))
     \<and> image_vectors (snd (compute_and_index world_ok job_a sys_uploaded)) ''img:a'' \<noteq> None"
    by simp
  with r ok st show ?thesis by simp
qed

lemma success_row:
  assumes "fst (compute_and_index w j s) = Inr True" and "sim_images s (job_image_id j) = Some row0"
  shows "sim_images (snd (compute_and_index w j s)) (job_image_id j)
           = Some (row0\<lparr>row_status := ''indexed''\<rparr>)"
  using assms
  by (auto simp: compute_and_index_def compute_and_index_steps_def add_document_def
      mark_indexed_def split: sum.splits option.splits if_splits prod.splits)

lemma upload_row_status:
  assumes "\<not> minio_fails w" and "\<not> pg_fails w" and "sim_images s (uuid4 w) = None"
  shows "map_option row_status (sim_images (snd (upload_image w filename data title tags s)) (uuid4 w))
           = Some ''pending''"
  using assms by (simp add: upload_image_def Let_def insert_image_def)

text \<open>
  C9. Every status found in a row of \<open>sim_images\<close> in a reachable state is
  \<open>pending\<close> or \<open>indexed\<close>, so never \<open>indexing\<close> or \<open>failed\<close>: the insertion of
  \<open>upload_image\<close> writes \<open>pending\<close>, and a successful run of the task sets the row of
  its image to \<open>indexed\<close> whatever the row's status was before (no comparison with the
  previous status).
\<close>

theorem status_values_written:
  "(reachable s \<longrightarrow>
      (\<forall>i row. sim_images s i = Some row \<longrightarrow>
         (row_status row = ''pending'' \<or> row_status row = ''indexed'')
         \<and> row_status row \<noteq> ''indexing'' \<and> row_status row \<noteq> ''failed''))
   \<and> (\<not> minio_fails w \<and> \<not> pg_fails w \<and> sim_images s (uuid4 w) = None \<longrightarrow>
        map_option row_status
          (sim_images (snd (upload_image w filename data title tags s)) (uuid4 w)) = Some ''pending'')
   \<and> (fst (compute_and_index w j s) = Inr True \<and> sim_images s (job_image_id j) = Some row0 \<longrightarrow>
        sim_images (snd (compute_and_index w j s)) (job_image_id j)
          = Some (row0\<lparr>row_status := ''indexed''\<rparr>))"
proof -
  have a: "reachable s \<longrightarrow>
      (\<forall>i row. sim_images s i = Some row \<longrightarrow>
         (row_status row = ''pending'' \<or> row_status row = ''indexed'')
         \<and> row_status row \<noteq> ''indexing'' \<and> row_status row \<noteq> ''failed'')"
  proof (intro impI allI)
    fix i row assume "reachable s" and row: "sim_images s i = Some row"
    then have "status_written s" by (simp add: reachable_status_written)
    with row have "row_status row = ''pending'' \<or> row_status row = ''indexed''"
      unfolding status_written_def by blast
    then show "(row_status row = ''pending'' \<or> row_status row = ''indexed'')
         \<and> row_status row \<noteq> ''indexing'' \<and> row_status row \<noteq> ''failed''"
      by auto
  qed
  from a upload_row_status success_row show ?thesis by blast
qed

theorem status_values_written_witness:
  "reachable sys_uploaded
   \<and> map_option row_status (sim_images sys_uploaded ''a'') = Some ''pending''
   \<and> fst (compute_and_index world_ok job_a sys_uploaded) = Inr True
   \<and> map_option row_status (sim_images (snd (compute_and_index world_ok job_a sys_uploaded)) ''a'')
       = Some ''indexed''"
proof -
  have r: "reachable sys_uploaded" by (rule reachable_uploaded)
  have ok: "fst (compute_and_index world_ok job_a sys_uploaded) = Inr True"
    by (simp add: compute_and_index_def run_uploaded)
  have row: "sim_images sys_uploaded ''a'' = Some \<lparr>row_title = ''t'', row_tags = None,
             row_url = ''similarity/a.png'', row_status = ''pending''\<rparr>"
    by (simp add: sys_uploaded_eq)
  have id: "job_image_id job_a = ''a''" by (simp add: job_a_def)
  from status_values_written [of sys_uploaded world_ok _ _ _ _ job_a] r ok row id
  show ?thesis by simp
qed

lemma embed_fails_steps:
  assumes "\<forall>b. isl (embed_image w b)"
  shows "snd (compute_and_index_steps w j s) = [] \<and> isl (fst (compute_and_index_steps w j s))"
proof (cases "fget_object w s (job_object_key j)")
  case (Inl e)
  then show ?thesis by (simp add: compute_and_index_steps_def)
next
  case (Inr data)
  from assms have "isl (embed_image w data)" by blast
  then obtain e where "embed_image w data = Inl e" by (cases "embed_image w data") auto
  with Inr show ?thesis
    by (simp add: compute_and_index_steps_def split: option.splits)
qed

lemma embed_fails_run:
  assumes "\<forall>b. isl (embed_image w b)"
  shows "isl (fst (compute_and_index w j s)) \<and> snd (compute_and_index w j s) = s"
  using embed_fails_steps [OF assms, of j s]
  by (cases "compute_and_index_steps w j s") (auto simp: compute_and_index_def)

lemma embed_fails_redeliver:
  assumes "\<forall>b. isl (embed_image w b)"
  shows "redeliver n w j s = s"
  by (induction n) (simp_all add: embed_fails_run [OF assms])

lemma world_embed_fails_always: "\<forall>b. isl (embed_image world_embed_fails b)"
  by (simp add: world_embed_fails_def world_ok_def)

lemma uploaded_row:
  "sim_images sys_uploaded ''a'' = Some \<lparr>row_title = ''t'', row_tags = None,
             row_url = ''similarity/a.png'', row_status = ''pending''\<rparr>"
  by (simp add: sys_uploaded_eq)

text \<open>
  C2, as stated, fails: with an embedder that always raises, three deliveries of the job
  of an uploaded image (the \<open>max_attempts = 3\<close> of the scenario) leave the row
  \<open>pending\<close>, not \<open>failed\<close>.
\<close>

theorem three_failures_leave_pending:
  "map_option row_status (sim_images (redeliver 3 world_embed_fails job_a sys_uploaded) ''a'')
     = Some ''pending''
   \<and> map_option row_status (sim_images (redeliver 3 world_embed_fails job_a sys_uploaded) ''a'')
     \<noteq> Some ''failed''"
  by (simp add: embed_fails_redeliver [OF world_embed_fails_always] uploaded_row)

lemma embed_raises_run:
  assumes "fget_object w s (job_object_key j) = Inr data"
    and "load_model w = Some e \<or> load_model w = None \<and> embed_image w data = Inl e"
  shows "compute_and_index w j s = (Inl e, s)"
  using assms by (auto simp: compute_and_index_def compute_and_index_steps_def)

text \<open>
  C2, amended. For every job whose call of the embedder raises (the model cannot be
  loaded, or \<open>encode\<close> raises on the fetched content), the task ends with that exception
  and writes nothing: the stores are as before the run, after any number of deliveries.
  The row keeps the status it had, and no count of attempts exists.
\<close>

theorem failed_embedding_changes_nothing:
  assumes "fget_object w s (job_object_key j) = Inr data"
    and "load_model w = Some e \<or> load_model w = None \<and> embed_image w data = Inl e"
  shows "fst (compute_and_index w j s) = Inl e
     \<and> snd (compute_and_index w j s) = s
     \<and> redeliver n w j s = s"
proof -
  have run: "compute_and_index w j s = (Inl e, s)" by (rule embed_raises_run [OF assms])
  have "redeliver n w j s = s" by (induction n) (simp_all add: run)
  with run show ?thesis by simp
qed

lemma fetch_uploaded:
  "\<not> minio_fails w \<Longrightarrow> fget_object w sys_uploaded (job_object_key job_a) = Inr [1]"
  by (simp add: fget_object_def job_a_def sys_uploaded_eq)

theorem failed_embedding_changes_nothing_witness:
  "fget_object world_embed_fails sys_uploaded (job_object_key job_a) = Inr [1]
   \<and> load_model world_embed_fails = None
   \<and> embed_image world_embed_fails [1] = Inl ModelError
   \<and> fst (compute_and_index world_embed_fails job_a sys_uploaded) = Inl ModelError
   \<and> snd (compute_and_index world_embed_fails job_a sys_uploaded) = sys_uploaded
   \<and> redeliver 3 world_embed_fails job_a sys_uploaded = sys_uploaded"
proof -
  have f: "fget_object world_embed_fails sys_uploaded (job_object_key job_a) = Inr [1]"
    by (rule fetch_uploaded) (simp add: world_embed_fails_def world_ok_def)
  have l: "load_model world_embed_fails = None" by (simp add: world_embed_fails_def world_ok_def)
  have e: "embed_image world_embed_fails [1] = Inl ModelError" by (simp add: world_embed_fails_def)
  have h: "load_model world_embed_fails = Some ModelError
     \<or> load_model world_embed_fails = None \<and> embed_image world_embed_fails [1] = Inl ModelError"
    using l e by simp
  from failed_embedding_changes_nothing [OF f h, of 3] f l e show ?thesis by simp
qed
















lemma f32_zero: "f32 0 = Fin 0"
  by (simp add: f32_def f32_overflow_def f32_underflow_def)

lemma sum_sq_zeros:
  "\<forall>v \<in> set emb. v = 0 \<Longrightarrow> foldr f32_add (map f32_sq (map f32 emb)) (Fin 0) = Fin 0"
  by (induction emb) (simp_all add: f32_zero)

lemma normalize_zeros:
  assumes "\<forall>v \<in> set emb. v = 0"
  shows "normalize emb = map (\<lambda>v. NaN) emb"
proof -
  have n: "l2_norm (map f32 emb) = Fin 0"
    unfolding l2_norm_def sum_sq_zeros [OF assms] by simp
  show ?thesis
    unfolding normalize_def Let_def n using assms by (auto simp: f32_zero)
qed

lemma run_at_index_write:
  assumes "fget_object w s (job_object_key j) = Inr data" and "load_model w = None"
    and "embed_image w data = Inr emb"
  shows "compute_and_index w j s =
     (case add_document w s (''img:'' @ job_image_id j) (doc_of_job j emb) of
        Inl e \<Rightarrow> (Inl e, s)
      | Inr s1 \<Rightarrow>
         (case mark_indexed w s1 (job_image_id j) of
            Inl e \<Rightarrow> (Inl e, s1)
          | Inr s2 \<Rightarrow> (Inr True, s2)))"
  using assms
  by (simp add: compute_and_index_def compute_and_index_steps_def split: sum.splits)

lemma add_fails_run:
  assumes "fget_object w s (job_object_key j) = Inr data" and "load_model w = None"
    and "embed_image w data = Inr emb" and "redis_add_fails w"
  shows "compute_and_index w j s = (Inl RedisError, s)"
  using assms by (simp add: run_at_index_write add_document_def)

lemma add_fails_redeliver:
  assumes "fget_object w s (job_object_key j) = Inr data" and "load_model w = None"
    and "embed_image w data = Inr emb" and "redis_add_fails w"
  shows "redeliver n w j s = s"
  by (induction n) (simp_all add: add_fails_run [OF assms])

text \<open>
  C8, as stated, fails: for a zero vector the normalisation raises nothing and gives
  \<open>nan\<close> components. With an index write that raises, the task ends with the exception
  of the index write, the one it ends with for a nonzero vector too, and after three
  deliveries the row is still \<open>pending\<close>: no embedding error, no retry policy and no
  terminal failure.
\<close>

theorem zero_vector_no_embedding_error:
  "embed_image world_zero_add_fails [1] = Inr [0, 0]
   \<and> normalize [0, 0] = [NaN, NaN]
   \<and> fst (compute_and_index world_zero_add_fails job_a sys_uploaded) = Inl RedisError
   \<and> fst (compute_and_index world_add_fails job_a sys_uploaded) = Inl RedisError
   \<and> map_option row_status
        (sim_images (redeliver 3 world_zero_add_fails job_a sys_uploaded) ''a'') = Some ''pending''"
proof -
  have f: "fget_object world_zero_add_fails sys_uploaded (job_object_key job_a) = Inr [1]"
    by (simp add: fget_object_def world_zero_add_fails_def world_zero_def world_ok_def job_a_def
        sys_uploaded_eq)
  have l: "load_model world_zero_add_fails = None"
    by (simp add: world_zero_add_fails_def world_zero_def world_ok_def)
  have e: "embed_image world_zero_add_fails [1] = Inr [0, 0]"
    by (simp add: world_zero_add_fails_def world_zero_def)
  have r: "redis_add_fails world_zero_add_fails" by (simp add: world_zero_add_fails_def)
  have f': "fget_object world_add_fails sys_uploaded (job_object_key job_a) = Inr [1]"
    by (simp add: fget_object_def world_add_fails_def world_ok_def job_a_def sys_uploaded_eq)
  have l': "load_model world_add_fails = None" by (simp add: world_add_fails_def world_ok_def)
  have e': "embed_image world_add_fails [1] = Inr [1, 0]"
    by (simp add: world_add_fails_def world_ok_def)
  have r': "redis_add_fails world_add_fails" by (simp add: world_add_fails_def)
  have n: "normalize [0, 0] = [NaN, NaN]" using normalize_zeros [of "[0, 0]"] by simp
  from e n add_fails_run [OF f l e r] add_fails_run [OF f' l' e' r']
    add_fails_redeliver [OF f l e r, of 3] uploaded_row
  show ?thesis by simp
qed

text \<open>
  C8, amended. When the embedder returns a zero vector, the task does not detect it and
  raises no error for it: the division by the zero norm gives \<open>nan\<close> in every component,
  and the run goes on to the index write with that vector, as for any other vector. When
  the index write raises, the task ends with that exception, stores nothing and leaves
  the row as it was, on every delivery.
\<close>

theorem zero_embedding_not_detected:
  assumes "fget_object w s (job_object_key j) = Inr data" and "load_model w = None"
    and "embed_image w data = Inr emb" and "\<forall>v \<in> set emb. v = 0"
  shows "doc_embedding (doc_of_job j emb) = map (\<lambda>v. NaN) emb
     \<and> compute_and_index w j s =
         (case add_document w s (''img:'' @ job_image_id j) (doc_of_job j emb) of
            Inl e \<Rightarrow> (Inl e, s)
          | Inr s1 \<Rightarrow>
             (case mark_indexed w s1 (job_image_id j) of
                Inl e \<Rightarrow> (Inl e, s1)
              | Inr s2 \<Rightarrow> (Inr True, s2)))
     \<and> (redis_add_fails w \<longrightarrow>
           fst (compute_and_index w j s) = Inl RedisError
           \<and> snd (compute_and_index w j s) = s
           \<and> redeliver n w j s = s)"
proof -
  have a: "doc_embedding (doc_of_job j emb) = map (\<lambda>v. NaN) emb"
    using assms(4) by (simp add: doc_of_job_def normalize_zeros)
  have c: "redis_add_fails w \<longrightarrow>
           fst (compute_and_index w j s) = Inl RedisError
           \<and> snd (compute_and_index w j s) = s
           \<and> redeliver n w j s = s"
    using add_fails_run [OF assms(1-3)] add_fails_redeliver [OF assms(1-3)] by simp
  from a run_at_index_write [OF assms(1-3)] c show ?thesis by blast
qed

theorem zero_embedding_not_detected_witness:
  "fget_object world_zero_add_fails sys_uploaded (job_object_key job_a) = Inr [1]
   \<and> load_model world_zero_add_fails = None
   \<and> embed_image world_zero_add_fails [1] = Inr [0, 0]
   \<and> redis_add_fails world_zero_add_fails
   \<and> doc_embedding (doc_of_job job_a [0, 0]) = [NaN, NaN]
   \<and> fst (compute_and_index world_zero_add_fails job_a sys_uploaded) = Inl RedisError
   \<and> snd (compute_and_index world_zero_add_fails job_a sys_uploaded) = sys_uploaded
   \<and> redeliver 3 world_zero_add_fails job_a sys_uploaded = sys_uploaded"
proof -
  have f: "fget_object world_zero_add_fails sys_uploaded (job_object_key job_a) = Inr [1]"
    by (simp add: fget_object_def world_zero_add_fails_def world_zero_def world_ok_def job_a_def
        sys_uploaded_eq)
  have l: "load_model world_zero_add_fails = None"
    by (simp add: world_zero_add_fails_def world_zero_def world_ok_def)
  have e: "embed_image world_zero_add_fails [1] = Inr [0, 0]"
    by (simp add: world_zero_add_fails_def world_zero_def)
  have z: "\<forall>v \<in> set [0, 0 :: real]. v = 0" by simp
  have r: "redis_add_fails world_zero_add_fails" by (simp add: world_zero_add_fails_def)
  note th = zero_embedding_not_detected [OF f l e z, of 3]
  have a: "doc_embedding (doc_of_job job_a [0, 0]) = [NaN, NaN]" using th by simp
  have b: "fst (compute_and_index world_zero_add_fails job_a sys_uploaded) = Inl RedisError
           \<and> snd (compute_and_index world_zero_add_fails job_a sys_uploaded) = sys_uploaded
           \<and> redeliver 3 world_zero_add_fails job_a sys_uploaded = sys_uploaded"
    using th r by blast
  from f l e r a b show ?thesis by blast
qed

section \<open>Claims about the normalisation\<close>















section \<open>Claims about the vector search\<close>

lemma hit_doc_hit:
  "hit_of world_ok doc_hit = Inr \<lparr>item_image_id = ''a'', item_score = 0, item_title = ''t'',
      item_url = ''similarity/a.png'', item_tags = []\<rparr>"
  by (simp add: hit_of_def getattr_def score_of_def doc_hit_def py_or_def)

lemma search_text_ok:
  "search_vector world_ok (Some ''cat'') qi 10 =
     Inr [\<lparr>item_image_id = ''a'', item_score = 0, item_title = ''t'',
      item_url = ''similarity/a.png'', item_tags = []\<rparr>]"
proof -
  have l: "load_model world_ok = None" by (simp add: world_ok_def)
  have q: "query_embedding world_ok (Some ''cat'') qi = Inr [0, 1]"
    by (simp add: query_embedding_def world_ok_def)
  have f: "ft_search world_ok 10 (normalize [0, 1]) = Inr [doc_hit]" by (simp add: world_ok_def)
  show ?thesis by (simp add: search_vector_def l q f hit_doc_hit)
qed

text \<open>
  C4, as stated, fails: when the embedder raises on the query text, the search answers
  with an \<open>HTTPException\<close> of status 500, not with an empty result set.
\<close>

theorem embedder_failure_is_500:
  "search_vector world_embed_fails (Some ''cat'') None 10 = Inl (HTTPException 500 (StrOf ModelError))"
  by (simp add: search_vector_def query_embedding_def world_embed_fails_def world_ok_def)

text \<open>
  C4, amended. When the query of the vector index raises, or the reading of its documents
  raises, the search returns an empty result set. When the embedder raises on the query
  text or on the query image, or the model cannot be loaded, the search raises an
  \<open>HTTPException\<close> of status 500 whose detail is the text of that exception.
\<close>

theorem search_failure_policy:
  "(load_model w = None \<and> query_embedding w qt qi = Inr q \<and> isl (ft_search w k (normalize q))
      \<longrightarrow> search_vector w qt qi k = Inr [])
   \<and> (load_model w = None \<and> query_embedding w qt qi = Inr q
        \<and> ft_search w k (normalize q) = Inr docs \<and> isl (hits_of w docs)
      \<longrightarrow> search_vector w qt qi k = Inr [])
   \<and> (load_model w = None \<and> t \<noteq> [] \<and> embed_text w t = Inl e
      \<longrightarrow> search_vector w (Some t) qi k = Inl (HTTPException 500 (StrOf e)))
   \<and> (load_model w = None \<and> embed_image w data = Inl e
      \<longrightarrow> search_vector w None (Some data) k = Inl (HTTPException 500 (StrOf e)))
   \<and> (load_model w = Some e \<longrightarrow> search_vector w qt qi k = Inl (HTTPException 500 (StrOf e)))"
  by (auto simp: search_vector_def query_embedding_def isl_def split: sum.splits)

theorem search_failure_policy_witness:
  "load_model world_search_fails = None
   \<and> query_embedding world_search_fails (Some ''cat'') None = Inr [0, 1]
   \<and> isl (ft_search world_search_fails 10 (normalize [0, 1]))
   \<and> search_vector world_search_fails (Some ''cat'') None 10 = Inr []
   \<and> load_model world_embed_fails = None
   \<and> embed_text world_embed_fails ''cat'' = Inl ModelError
   \<and> search_vector world_embed_fails (Some ''cat'') None 10
       = Inl (HTTPException 500 (StrOf ModelError))"
proof -
  have l1: "load_model world_search_fails = None" by (simp add: world_search_fails_def world_ok_def)
  have q1: "query_embedding world_search_fails (Some ''cat'') None = Inr [0, 1]"
    by (simp add: query_embedding_def world_search_fails_def world_ok_def)
  have f1: "isl (ft_search world_search_fails 10 (normalize [0, 1]))"
    by (simp add: world_search_fails_def)
  have l2: "load_model world_embed_fails = None" by (simp add: world_embed_fails_def world_ok_def)
  have e2: "embed_text world_embed_fails ''cat'' = Inl ModelError"
    by (simp add: world_embed_fails_def)
  have ne: "''cat'' \<noteq> []" by simp
  have r1: "search_vector world_search_fails (Some ''cat'') None 10 = Inr []"
    using search_failure_policy [of world_search_fails "Some ''cat''" None "[0, 1]" 10] l1 q1 f1
    by blast
  have r2: "search_vector world_embed_fails (Some ''cat'') None 10
       = Inl (HTTPException 500 (StrOf ModelError))"
    using search_failure_policy [of world_embed_fails _ None _ 10 _ "''cat''" ModelError] l2 e2 ne
    by blast
  from l1 q1 f1 r1 l2 e2 r2 show ?thesis by blast
qed

text \<open>
  C5. A search with neither a query text nor a query image (an empty text counts as none)
  raises the \<open>HTTPException\<close> of status 400 inside the body of the handler, and the
  handler's own \<open>except Exception\<close> turns it into an \<open>HTTPException\<close> of status 500:
  the caller gets no results and a server error, not the malformed-input error.
\<close>

theorem empty_query_is_500:
  "search_vector (w\<lparr>load_model := None\<rparr>) None None k
     = Inl (HTTPException 500 (StrOf (HTTPException 400 (Msg ''Provide query_text or query_image''))))
   \<and> search_vector (w\<lparr>load_model := None\<rparr>) (Some []) None k
     = Inl (HTTPException 500 (StrOf (HTTPException 400 (Msg ''Provide query_text or query_image''))))"
  by (simp add: search_vector_def query_embedding_def)

text \<open>
  C6, as stated, fails: a search given both a query text and a query image is not
  rejected; it returns the results of the text query.
\<close>

theorem both_supplied_answers:
  "search_vector world_ok (Some ''cat'') (Some [1, 2, 3]) 10 =
     Inr [\<lparr>item_image_id = ''a'', item_score = 0, item_title = ''t'',
      item_url = ''similarity/a.png'', item_tags = []\<rparr>]"
  by (rule search_text_ok)

text \<open>
  C6, amended. When both a non-empty query text and a query image are supplied, the
  search embeds the text and ignores the image: its result is the result of the same
  search without the image, and no error is raised for supplying both.
\<close>

theorem text_takes_precedence:
  assumes "t \<noteq> []"
  shows "search_vector w (Some t) (Some data) k = search_vector w (Some t) None k
     \<and> query_embedding w (Some t) (Some data) = embed_text w t"
proof -
  have q1: "query_embedding w (Some t) (Some data) = embed_text w t"
    using assms by (simp add: query_embedding_def)
  have q2: "query_embedding w (Some t) None = embed_text w t"
    using assms by (simp add: query_embedding_def)
  have "search_vector w (Some t) (Some data) k = search_vector w (Some t) None k"
    unfolding search_vector_def q1 q2 by (rule refl)
  with q1 show ?thesis by simp
qed

theorem text_takes_precedence_witness:
  "''cat'' \<noteq> []
   \<and> search_vector world_ok (Some ''cat'') (Some [1, 2, 3]) 10
       = search_vector world_ok (Some ''cat'') None 10
   \<and> query_embedding world_ok (Some ''cat'') (Some [1, 2, 3]) = embed_text world_ok ''cat''"
proof -
  have ne: "''cat'' \<noteq> []" by simp
  from text_takes_precedence [OF ne, of world_ok "[1, 2, 3]" 10] ne show ?thesis by blast
qed

lemma hit_of_score:
  "hit_of w d = Inr h \<Longrightarrow> score_of w d = Inr (item_score h)"
  by (auto simp: hit_of_def split: sum.splits)

lemma hits_of_scores:
  "hits_of w docs = Inr rs \<Longrightarrow>
   length rs = length docs \<and> (\<forall>n < length rs. score_of w (docs ! n) = Inr (item_score (rs ! n)))"
proof (induction docs arbitrary: rs)
  case Nil
  then show ?case by simp
next
  case (Cons d ds)
  from Cons.prems obtain h hs where h: "hit_of w d = Inr h" and hs: "hits_of w ds = Inr hs"
    and rs: "rs = h # hs"
    by (auto split: sum.splits)
  from Cons.IH [OF hs] have len: "length hs = length ds"
    and sc: "\<forall>n < length hs. score_of w (ds ! n) = Inr (item_score (hs ! n))" by auto
  show ?case
  proof (intro conjI allI impI)
    show "length rs = length (d # ds)" using rs len by simp
  next
    fix n assume "n < length rs"
    then show "score_of w ((d # ds) ! n) = Inr (item_score (rs ! n))"
      using rs sc hit_of_score [OF h] by (cases n) auto
  qed
qed

lemma search_results_from:
  assumes "search_vector w qt qi k = Inr rs" and "rs \<noteq> []"
  shows "\<exists>q docs. query_embedding w qt qi = Inr q \<and> ft_search w k (normalize q) = Inr docs
           \<and> hits_of w docs = Inr rs"
  using assms
  by (auto simp: search_vector_def split: option.splits sum.splits)

text \<open>
  C10. Every hit the search returns comes from the document at the same position of the
  index's answer, and its score is \<open>float\<close> of that document's attribute \<open>__score\<close>,
  or 0 when the document has no such attribute; neither the query vector nor any stored
  embedding enters the score.
\<close>

theorem score_read_from_attribute:
  assumes "search_vector w qt qi k = Inr rs" and "n < length rs"
  shows "\<exists>q docs. query_embedding w qt qi = Inr q \<and> ft_search w k (normalize q) = Inr docs
           \<and> length docs = length rs
           \<and> (case (docs ! n) ''__score'' of
                 None \<Rightarrow> item_score (rs ! n) = 0
               | Some v \<Rightarrow> float_of_str w v = Inr (item_score (rs ! n)))"
proof -
  from assms(2) have "rs \<noteq> []" by auto
  from search_results_from [OF assms(1) this] obtain q docs where
    q: "query_embedding w qt qi = Inr q" and d: "ft_search w k (normalize q) = Inr docs"
    and h: "hits_of w docs = Inr rs" by blast
  from hits_of_scores [OF h] assms(2) have len: "length rs = length docs"
    and sc: "score_of w (docs ! n) = Inr (item_score (rs ! n))" by auto
  from sc have "(case (docs ! n) ''__score'' of
                 None \<Rightarrow> item_score (rs ! n) = 0
               | Some v \<Rightarrow> float_of_str w v = Inr (item_score (rs ! n)))"
    by (auto simp: score_of_def split: option.splits)
  with q d len show ?thesis by auto
qed

theorem score_read_from_attribute_witness:
  "search_vector world_ok (Some ''cat'') None 10 =
     Inr [\<lparr>item_image_id = ''a'', item_score = 0, item_title = ''t'',
      item_url = ''similarity/a.png'', item_tags = []\<rparr>]
   \<and> (0::nat) < length [\<lparr>item_image_id = ''a'', item_score = 0, item_title = ''t'',
      item_url = ''similarity/a.png'', item_tags = []\<rparr>]
   \<and> doc_hit ''__score'' = None
   \<and> (\<exists>q docs. query_embedding world_ok (Some ''cat'') None = Inr q
         \<and> ft_search world_ok 10 (normalize q) = Inr docs \<and> length docs = 1)"
proof -
  have s: "search_vector world_ok (Some ''cat'') None 10 =
     Inr [\<lparr>item_image_id = ''a'', item_score = 0, item_title = ''t'',
      item_url = ''similarity/a.png'', item_tags = []\<rparr>]" by (rule search_text_ok)
  have n: "(0::nat) < length [\<lparr>item_image_id = ''a'', item_score = 0, item_title = ''t'',
      item_url = ''similarity/a.png'', item_tags = []\<rparr>]" by simp
  have a: "doc_hit ''__score'' = None" by (simp add: doc_hit_def)
  from score_read_from_attribute [OF s n] have
    "\<exists>q docs. query_embedding world_ok (Some ''cat'') None = Inr q
         \<and> ft_search world_ok 10 (normalize q) = Inr docs \<and> length docs = 1"
    by auto
  with s n a show ?thesis by blast
qed

end
